theory Spec2Isabelle
  imports Complex_Main
begin

section \<open>The playback controller of src/app/index.tsx\<close>

text \<open>
  The controller is the React function component \<open>App\<close>. Its state lives in
  \<open>useState\<close> cells; its handlers are closures created at each render. A handler
  reads the state variables of the render it was created in and acts on the world in
  two ways only: it calls state setters (each replaces one cell by a value, none is
  given an updater function) and it calls the playback engine (\<open>expo-av\<close>).

  The embedding follows that shape. A handler is a function from the state snapshot
  it closed over, its argument and the outcomes of the engine promises it awaits, to
  the list of actions it performs, in program order. The next state is the old one
  with the setter calls of that list applied.

  An asynchronous handler is followed to its end: what it does after an \<open>await\<close>
  is listed after what it does before, and the lists of two handlers are not
  interleaved. A rejected promise is an outcome like any other: the handler goes on
  in its \<open>catch\<close> block if it has one and stops if it has none.
\<close>

subsection \<open>Data\<close>

text \<open>\<open>interface AudioAsset\<close> (lines 15-19); the field \<open>id\<close> is named
  \<open>asset_id\<close> here.\<close>

record AudioAsset =
  asset_id :: string
  filename :: string
  uri :: string

text \<open>An \<open>Audio.Sound\<close> object is known by its identity only.\<close>

type_synonym sound = nat

text \<open>
  The state cells of lines 25-30 together with \<open>audioAssets\<close> (line 23).
  \<open>currentTrackIndex\<close> only ever holds integers (\<open>-1\<close>, a list index, or one of
  these plus or minus one), so it is an \<open>int\<close>. \<open>position\<close> and \<open>duration\<close> are
  JavaScript numbers that the handlers copy and never compute with.
\<close>

record app_state =
  audioAssets :: "AudioAsset list"
  playbackInstance :: "sound option"
  isPlaying :: bool
  currentTrackIndex :: int
  position :: real
  duration :: real
  isSeeking :: bool

text \<open>The \<open>useState\<close> defaults, once the asset list has been fetched.\<close>

definition initial :: "AudioAsset list \<Rightarrow> app_state" where
  "initial tracks =
     \<lparr>audioAssets = tracks, playbackInstance = None, isPlaying = False,
      currentTrackIndex = - 1, position = 0, duration = 0, isSeeking = False\<rparr>"

text \<open>
  \<open>AVPlaybackStatus\<close>: either not loaded, with an optional error text, or loaded,
  with \<open>positionMillis\<close>, the optional \<open>durationMillis\<close>, \<open>isPlaying\<close> and
  \<open>didJustFinish\<close>.
\<close>

datatype AVPlaybackStatus =
    NotLoaded "string option"
  | Loaded real "real option" bool bool

text \<open>The outcome of an awaited engine promise.\<close>

datatype 'a promise = Resolved 'a | Rejected string

text \<open>
  What a handler can do: call a state setter, call the engine, or write to the
  console. \<open>CreateAsync u p\<close> stands for
  \<open>Audio.Sound.createAsync({uri: u}, {shouldPlay: p}, onPlaybackStatusUpdate)\<close>.
\<close>

datatype action =
    SetPlaybackInstance "sound option"
  | SetIsPlaying bool
  | SetCurrentTrackIndex int
  | SetPosition real
  | SetDuration real
  | SetIsSeeking bool
  | UnloadAsync sound
  | CreateAsync string bool
  | PauseAsync sound
  | PlayAsync sound
  | PlayFromPositionAsync sound real
  | SetPositionAsync sound real
  | ConsoleError string string

fun is_engine_call :: "action \<Rightarrow> bool" where
  "is_engine_call (UnloadAsync _) = True"
| "is_engine_call (CreateAsync _ _) = True"
| "is_engine_call (PauseAsync _) = True"
| "is_engine_call (PlayAsync _) = True"
| "is_engine_call (PlayFromPositionAsync _ _) = True"
| "is_engine_call (SetPositionAsync _ _) = True"
| "is_engine_call _ = False"

fun is_setter :: "action \<Rightarrow> bool" where
  "is_setter (SetPlaybackInstance _) = True"
| "is_setter (SetIsPlaying _) = True"
| "is_setter (SetCurrentTrackIndex _) = True"
| "is_setter (SetPosition _) = True"
| "is_setter (SetDuration _) = True"
| "is_setter (SetIsSeeking _) = True"
| "is_setter _ = False"

definition engine_calls :: "action list \<Rightarrow> action list" where
  "engine_calls acts = filter is_engine_call acts"

text \<open>The effect of one action on the state cells, and of a handler's whole list.\<close>

fun setState :: "action \<Rightarrow> app_state \<Rightarrow> app_state" where
  "setState (SetPlaybackInstance v) s = s\<lparr>playbackInstance := v\<rparr>"
| "setState (SetIsPlaying v) s = s\<lparr>isPlaying := v\<rparr>"
| "setState (SetCurrentTrackIndex v) s = s\<lparr>currentTrackIndex := v\<rparr>"
| "setState (SetPosition v) s = s\<lparr>position := v\<rparr>"
| "setState (SetDuration v) s = s\<lparr>duration := v\<rparr>"
| "setState (SetIsSeeking v) s = s\<lparr>isSeeking := v\<rparr>"
| "setState _ s = s"

definition commit :: "action list \<Rightarrow> app_state \<Rightarrow> app_state" where
  "commit acts s = fold setState acts s"

subsection \<open>The handlers\<close>

text \<open>
  \<open>playAudio\<close> (lines 95-114). The whole body is inside \<open>try\<close>; anything thrown
  ends it and is logged by the \<open>catch\<close>. Three things can throw: the awaited
  \<open>unloadAsync\<close>, the awaited \<open>createAsync\<close>, and reading \<open>asset.uri\<close> when
  \<open>audioAssets[index]\<close> is \<open>undefined\<close>, that is when \<open>index\<close> is outside the list.
\<close>

definition playAudio :: "app_state \<Rightarrow> int \<Rightarrow> unit promise \<Rightarrow> sound promise \<Rightarrow> action list" where
  "playAudio c index unloaded created =
     (let load =
        (if 0 \<le> index \<and> index < int (length (audioAssets c)) then
           (let asset = audioAssets c ! nat index in
            CreateAsync (uri asset) True #
              (case created of
                 Resolved sound \<Rightarrow>
                   [SetPlaybackInstance (Some sound), SetCurrentTrackIndex index, SetIsPlaying True]
               | Rejected e \<Rightarrow> [ConsoleError ''Error playing audio:'' e]))
         else [ConsoleError ''Error playing audio:'' ''TypeError''])
      in case playbackInstance c of
           None \<Rightarrow> load
         | Some prev \<Rightarrow>
             UnloadAsync prev #
               (case unloaded of
                  Resolved _ \<Rightarrow> SetPlaybackInstance None # load
                | Rejected e \<Rightarrow> [ConsoleError ''Error playing audio:'' e]))"

text \<open>
  \<open>handlePlayPause\<close> (lines 117-125). Nothing follows the awaited call, so its
  outcome changes nothing the handler does.
\<close>

definition handlePlayPause :: "app_state \<Rightarrow> action list" where
  "handlePlayPause c =
     (case playbackInstance c of
        Some inst \<Rightarrow> if isPlaying c then [PauseAsync inst] else [PlayAsync inst]
      | None \<Rightarrow> [])"

text \<open>\<open>handleNext\<close> (lines 128-135) and \<open>handlePrevious\<close> (lines 138-145).\<close>

definition handleNext :: "app_state \<Rightarrow> unit promise \<Rightarrow> sound promise \<Rightarrow> action list" where
  "handleNext c unloaded created =
     (if length (audioAssets c) = 0 then []
      else
        let nextIndex = currentTrackIndex c + 1;
            nextIndex = (if nextIndex \<ge> int (length (audioAssets c)) then 0 else nextIndex)
        in playAudio c nextIndex unloaded created)"

definition handlePrevious :: "app_state \<Rightarrow> unit promise \<Rightarrow> sound promise \<Rightarrow> action list" where
  "handlePrevious c unloaded created =
     (if length (audioAssets c) = 0 then []
      else
        let prevIndex = currentTrackIndex c - 1;
            prevIndex = (if prevIndex < 0 then int (length (audioAssets c)) - 1 else prevIndex)
        in playAudio c prevIndex unloaded created)"

text \<open>
  \<open>onPlaybackStatusUpdate\<close> (lines 76-92). \<open>if (status.error)\<close> is false for an
  absent error and for the empty string. The call of \<open>handleNext\<close> is not awaited;
  its actions come after those of the status update itself.
\<close>

definition onPlaybackStatusUpdate ::
  "app_state \<Rightarrow> AVPlaybackStatus \<Rightarrow> unit promise \<Rightarrow> sound promise \<Rightarrow> action list" where
  "onPlaybackStatusUpdate c status unloaded created =
     (case status of
        NotLoaded err \<Rightarrow>
          (case err of
             None \<Rightarrow> []
           | Some e \<Rightarrow> if e = [] then [] else [ConsoleError ''Playback error:'' e])
      | Loaded positionMillis durationMillis playing didJustFinish \<Rightarrow>
          (if \<not> isSeeking c
           then [SetPosition positionMillis,
                 SetDuration (case durationMillis of None \<Rightarrow> 0 | Some d \<Rightarrow> d)]
           else []) @
          [SetIsPlaying playing] @
          (if didJustFinish then handleNext c unloaded created else []))"

text \<open>\<open>handleSliderValueChange\<close> (lines 148-151).\<close>

definition handleSliderValueChange :: "app_state \<Rightarrow> real \<Rightarrow> action list" where
  "handleSliderValueChange c v = [SetIsSeeking True, SetPosition v]"

text \<open>
  \<open>handleSlidingComplete\<close> (lines 154-163). There is no \<open>try\<close>: when the awaited
  engine call is rejected the handler ends there and \<open>setIsSeeking(false)\<close> is not
  reached.
\<close>

definition handleSlidingComplete :: "app_state \<Rightarrow> real \<Rightarrow> unit promise \<Rightarrow> action list" where
  "handleSlidingComplete c v sought =
     (case playbackInstance c of
        Some inst \<Rightarrow>
          (if isPlaying c then PlayFromPositionAsync inst v else SetPositionAsync inst v) #
            (case sought of Resolved _ \<Rightarrow> [SetIsSeeking False] | Rejected e \<Rightarrow> [])
      | None \<Rightarrow> [SetIsSeeking False])"

subsection \<open>Operations as the view invokes them\<close>

text \<open>
  The view (lines 190-240) wires a track tap to \<open>playAudio(index)\<close>, the three
  buttons to \<open>handlePrevious\<close>, \<open>handlePlayPause\<close> and \<open>handleNext\<close>, and the
  slider to \<open>handleSliderValueChange\<close> and \<open>handleSlidingComplete\<close>; the engine
  invokes \<open>onPlaybackStatusUpdate\<close>. An operation carries the outcomes of the
  engine promises its handler awaits.
\<close>

datatype operation =
    SelectTrack int "unit promise" "sound promise"
  | TogglePlayPause
  | Next "unit promise" "sound promise"
  | Previous "unit promise" "sound promise"
  | BeginSeek real
  | CommitSeek real "unit promise"
  | EngineStatus AVPlaybackStatus "unit promise" "sound promise"

fun perform :: "app_state \<Rightarrow> operation \<Rightarrow> action list" where
  "perform c (SelectTrack index unloaded created) = playAudio c index unloaded created"
| "perform c TogglePlayPause = handlePlayPause c"
| "perform c (Next unloaded created) = handleNext c unloaded created"
| "perform c (Previous unloaded created) = handlePrevious c unloaded created"
| "perform c (BeginSeek v) = handleSliderValueChange c v"
| "perform c (CommitSeek v sought) = handleSlidingComplete c v sought"
| "perform c (EngineStatus status unloaded created) =
     onPlaybackStatusUpdate c status unloaded created"

fun is_status :: "operation \<Rightarrow> bool" where
  "is_status (EngineStatus _ _ _) = True"
| "is_status _ = False"

text \<open>
  A handler of the current render runs to its end while the engine accepts every
  call; \<open>g\<close> is the \<open>Audio.Sound\<close> that \<open>createAsync\<close> returns.
\<close>

definition select_ok :: "int \<Rightarrow> sound \<Rightarrow> app_state \<Rightarrow> app_state" where
  "select_ok index g s = commit (playAudio s index (Resolved ()) (Resolved g)) s"

definition next_ok :: "sound \<Rightarrow> app_state \<Rightarrow> app_state" where
  "next_ok g s = commit (handleNext s (Resolved ()) (Resolved g)) s"

definition previous_ok :: "sound \<Rightarrow> app_state \<Rightarrow> app_state" where
  "previous_ok g s = commit (handlePrevious s (Resolved ()) (Resolved g)) s"

text \<open>
  A slider gesture: one \<open>handleSliderValueChange\<close> per dragged value, each by the
  handler of the render that the previous call produced, then
  \<open>handleSlidingComplete\<close> on release.
\<close>

fun seek_gesture :: "real list \<Rightarrow> real \<Rightarrow> unit promise \<Rightarrow> app_state \<Rightarrow> action list" where
  "seek_gesture [] v sought s = handleSlidingComplete s v sought"
| "seek_gesture (x # xs) v sought s =
     (let acts = handleSliderValueChange s x
      in acts @ seek_gesture xs v sought (commit acts s))"

subsection \<open>State predicates\<close>

text \<open>The three-way equivalence of the data model, and its two legs that start
  from "no track selected".\<close>

definition three_way :: "app_state \<Rightarrow> bool" where
  "three_way s =
     (((currentTrackIndex s = - 1) = (playbackInstance s = None)) \<and>
      ((playbackInstance s = None) = (\<not> isPlaying s)))"

definition no_track_no_session :: "app_state \<Rightarrow> bool" where
  "no_track_no_session s = (currentTrackIndex s = - 1 \<longrightarrow> playbackInstance s = None)"

definition no_track_not_playing :: "app_state \<Rightarrow> bool" where
  "no_track_not_playing s = (currentTrackIndex s = - 1 \<longrightarrow> \<not> isPlaying s)"

text \<open>Two tracks and the states used as concrete inputs below.\<close>

definition track_a :: AudioAsset where
  "track_a = \<lparr>asset_id = ''1'', filename = ''a.mp3'', uri = ''file:///a.mp3''\<rparr>"

definition track_b :: AudioAsset where
  "track_b = \<lparr>asset_id = ''2'', filename = ''b.mp3'', uri = ''file:///b.mp3''\<rparr>"

definition two_tracks :: app_state where
  "two_tracks = initial [track_a, track_b]"

text \<open>The first track was tapped and loaded as sound 1.\<close>

definition first_selected :: app_state where
  "first_selected = select_ok 0 1 two_tracks"

text \<open>Then the second track was tapped and loaded as sound 2.\<close>

definition second_selected :: app_state where
  "second_selected = select_ok 1 2 first_selected"

text \<open>Or else the second track was tapped and its load was rejected.\<close>

definition second_failed :: app_state where
  "second_failed =
     commit (playAudio first_selected 1 (Resolved ()) (Rejected ''load failed'')) first_selected"

text \<open>Or else the engine reported the first session as loaded and not playing.\<close>

definition first_paused :: app_state where
  "first_paused =
     commit (onPlaybackStatusUpdate first_selected (Loaded 1000 (Some 9000) False False)
               (Resolved ()) (Resolved 2)) first_selected"

text \<open>Or else, with the first track playing, the slider was dragged to 1000.\<close>

definition first_seeking :: app_state where
  "first_seeking = commit (handleSliderValueChange first_selected 1000) first_selected"

section \<open>Properties\<close>

subsection \<open>Applying a handler's actions\<close>

lemma commit_Nil: "commit [] s = s"
  by (simp add: commit_def)

lemma commit_Cons: "commit (a # acts) s = commit acts (setState a s)"
  by (simp add: commit_def)

lemma commit_append: "commit (xs @ ys) s = commit ys (commit xs s)"
  by (simp add: commit_def)

lemma setState_audioAssets: "audioAssets (setState a s) = audioAssets s"
  by (cases a) simp_all

lemma commit_audioAssets: "audioAssets (commit acts s) = audioAssets s"
  by (induction acts arbitrary: s) (simp_all add: commit_Nil commit_Cons setState_audioAssets)

lemma playAudio_ok:
  assumes "0 \<le> i" and "i < int (length (audioAssets c))"
  shows "commit (playAudio c i (Resolved ()) (Resolved g)) s =
         s\<lparr>playbackInstance := Some g, currentTrackIndex := i, isPlaying := True\<rparr>"
  using assms by (cases "playbackInstance c") (simp_all add: playAudio_def commit_Nil commit_Cons)

lemma playAudio_outcome:
  "commit (playAudio c i u cr) s = s \<or>
   commit (playAudio c i u cr) s = s\<lparr>playbackInstance := None\<rparr> \<or>
   (0 \<le> i \<and> (\<exists>g. commit (playAudio c i u cr) s =
       s\<lparr>playbackInstance := Some g, currentTrackIndex := i, isPlaying := True\<rparr>))"
  by (cases "playbackInstance c"; cases u; cases cr)
     (auto simp add: playAudio_def commit_Nil commit_Cons)

lemma playAudio_rejected:
  assumes "0 \<le> i" and "i < int (length (audioAssets c))"
  shows "commit (playAudio c i (Resolved ()) (Rejected e)) s =
         (case playbackInstance c of None \<Rightarrow> s | Some prev \<Rightarrow> s\<lparr>playbackInstance := None\<rparr>)"
  using assms by (cases "playbackInstance c") (simp_all add: playAudio_def commit_Nil commit_Cons)

lemma handleNext_in_range:
  assumes "0 \<le> currentTrackIndex c" and "currentTrackIndex c < int (length (audioAssets c))"
  shows "handleNext c u cr =
         playAudio c ((currentTrackIndex c + 1) mod int (length (audioAssets c))) u cr"
proof -
  let ?n = "int (length (audioAssets c))"
  have "(currentTrackIndex c + 1) mod ?n =
        (if currentTrackIndex c + 1 \<ge> ?n then 0 else currentTrackIndex c + 1)"
  proof (cases "currentTrackIndex c + 1 = ?n")
    case True
    then show ?thesis by simp
  next
    case False
    with assms have "currentTrackIndex c + 1 < ?n" by linarith
    with assms show ?thesis by (simp add: mod_pos_pos_trivial)
  qed
  moreover have "length (audioAssets c) \<noteq> 0" using assms by auto
  ultimately show ?thesis by (simp add: handleNext_def Let_def)
qed

lemma handlePrevious_in_range:
  assumes "0 \<le> currentTrackIndex c" and "currentTrackIndex c < int (length (audioAssets c))"
  shows "handlePrevious c u cr =
         playAudio c ((currentTrackIndex c - 1 + int (length (audioAssets c)))
                        mod int (length (audioAssets c))) u cr"
proof -
  let ?n = "int (length (audioAssets c))"
  have "(currentTrackIndex c - 1 + ?n) mod ?n =
        (if currentTrackIndex c - 1 < 0 then ?n - 1 else currentTrackIndex c - 1)"
  proof (cases "currentTrackIndex c = 0")
    case True
    have "(?n - 1) mod ?n = ?n - 1"
      using assms by (intro mod_pos_pos_trivial) linarith+
    with True show ?thesis by simp
  next
    case False
    with assms have "0 \<le> currentTrackIndex c - 1" "currentTrackIndex c - 1 < ?n" by linarith+
    then have "(currentTrackIndex c - 1) mod ?n = currentTrackIndex c - 1"
      by (rule mod_pos_pos_trivial)
    with False assms show ?thesis by simp
  qed
  moreover have "length (audioAssets c) \<noteq> 0" using assms by auto
  ultimately show ?thesis by (simp add: handlePrevious_def Let_def)
qed

lemma next_ok_index:
  assumes "0 \<le> currentTrackIndex s" and "currentTrackIndex s < int (length (audioAssets s))"
  shows "next_ok g s = s\<lparr>playbackInstance := Some g,
            currentTrackIndex := (currentTrackIndex s + 1) mod int (length (audioAssets s)),
            isPlaying := True\<rparr>"
proof -
  have "0 < int (length (audioAssets s))" using assms by linarith
  then show ?thesis
    unfolding next_ok_def handleNext_in_range [OF assms]
    by (intro playAudio_ok) simp_all
qed

lemma previous_ok_index:
  assumes "0 \<le> currentTrackIndex s" and "currentTrackIndex s < int (length (audioAssets s))"
  shows "previous_ok g s = s\<lparr>playbackInstance := Some g,
            currentTrackIndex := (currentTrackIndex s - 1 + int (length (audioAssets s)))
                                   mod int (length (audioAssets s)),
            isPlaying := True\<rparr>"
proof -
  have "0 < int (length (audioAssets s))" using assms by linarith
  then show ?thesis
    unfolding previous_ok_def handlePrevious_in_range [OF assms]
    by (intro playAudio_ok) simp_all
qed

lemma fold_next_ok:
  assumes "0 \<le> currentTrackIndex s" and "currentTrackIndex s < int (length (audioAssets s))"
  shows "audioAssets (fold next_ok gs s) = audioAssets s \<and>
         currentTrackIndex (fold next_ok gs s) =
           (currentTrackIndex s + int (length gs)) mod int (length (audioAssets s))"
  using assms
proof (induction gs arbitrary: s)
  case Nil
  then show ?case by (simp add: mod_pos_pos_trivial)
next
  case (Cons g gs)
  let ?n = "int (length (audioAssets s))"
  let ?s' = "next_ok g s"
  have n: "0 < ?n" using Cons.prems by linarith
  have s': "?s' = s\<lparr>playbackInstance := Some g,
            currentTrackIndex := (currentTrackIndex s + 1) mod ?n, isPlaying := True\<rparr>"
    by (rule next_ok_index [OF Cons.prems])
  have a: "audioAssets ?s' = audioAssets s" by (simp add: s')
  have i: "currentTrackIndex ?s' = (currentTrackIndex s + 1) mod ?n" by (simp add: s')
  have r: "0 \<le> currentTrackIndex ?s'" "currentTrackIndex ?s' < int (length (audioAssets ?s'))"
    using n by (simp_all add: i a)
  from Cons.IH [OF r] have
    "audioAssets (fold next_ok gs ?s') = audioAssets s"
    "currentTrackIndex (fold next_ok gs ?s') = ((currentTrackIndex s + 1) mod ?n + int (length gs)) mod ?n"
    by (simp_all add: a i)
  moreover have "((currentTrackIndex s + 1) mod ?n + int (length gs)) mod ?n =
                 (currentTrackIndex s + int (length (g # gs))) mod ?n"
  proof -
    have "((currentTrackIndex s + 1) mod ?n + int (length gs)) mod ?n =
          (currentTrackIndex s + 1 + int (length gs)) mod ?n"
      by (rule mod_add_left_eq)
    also have "currentTrackIndex s + 1 + int (length gs) =
               currentTrackIndex s + int (length (g # gs))" by simp
    finally show ?thesis .
  qed
  ultimately show ?case by simp
qed

lemma select_ok_eq:
  assumes "0 \<le> i" and "i < int (length (audioAssets s))"
  shows "select_ok i g s = s\<lparr>playbackInstance := Some g, currentTrackIndex := i, isPlaying := True\<rparr>"
  unfolding select_ok_def by (rule playAudio_ok [OF assms])

lemma status_loaded_commit:
  "commit (onPlaybackStatusUpdate c (Loaded p d pl fin) u cr) s =
   commit (if fin then handleNext c u cr else [])
     (s\<lparr>position := (if isSeeking c then position s else p),
        duration := (if isSeeking c then duration s else (case d of None \<Rightarrow> 0 | Some x \<Rightarrow> x)),
        isPlaying := pl\<rparr>)"
  by (simp add: onPlaybackStatusUpdate_def commit_append commit_Cons commit_Nil)

subsection \<open>Play and pause\<close>

text \<open>
  C9. \<open>togglePlayPause\<close> does nothing at all when no session exists. When a session
  exists it issues exactly one engine call, \<open>pauseAsync\<close> if \<open>isPlaying\<close> is true and
  \<open>playAsync\<close> otherwise. In neither case does it call a state setter: the state,
  and so the \<open>isPlaying\<close> flag, is the same after the handler as before.
\<close>

theorem togglePlayPause_issues_command_only:
  "(playbackInstance c = None \<longrightarrow> handlePlayPause c = []) \<and>
   (playbackInstance c = Some inst \<longrightarrow>
      handlePlayPause c = (if isPlaying c then [PauseAsync inst] else [PlayAsync inst])) \<and>
   filter is_setter (handlePlayPause c) = [] \<and>
   commit (handlePlayPause c) s = s"
  by (cases "playbackInstance c") (simp_all add: handlePlayPause_def commit_def)

theorem togglePlayPause_issues_command_only_witness:
  "playbackInstance first_selected = Some 1 \<and>
   handlePlayPause first_selected = [PauseAsync 1] \<and>
   playbackInstance two_tracks = None \<and> handlePlayPause two_tracks = [] \<and>
   commit (handlePlayPause first_selected) first_selected = first_selected"
  using togglePlayPause_issues_command_only [of first_selected 1 first_selected]
        togglePlayPause_issues_command_only [of two_tracks 1 two_tracks]
  by (simp add: first_selected_def two_tracks_def initial_def select_ok_def playAudio_def
        handlePlayPause_def commit_Nil commit_Cons)

subsection \<open>Status events of a superseded session\<close>

text \<open>
  The first track is selected (sound 1), then the second (sound 2). The callback
  that was given to \<open>createAsync\<close> for sound 1 is the \<open>onPlaybackStatusUpdate\<close>
  of the render in which the first tap happened, the initial one. If the engine
  calls it afterwards with a loaded status, the state changes: there is no
  generation number anywhere in the code, and a status does not say which
  session it is from.
\<close>

theorem stale_status_event_mutates_state:
  "playbackInstance second_selected = Some 2 \<and>
   commit (onPlaybackStatusUpdate two_tracks (Loaded 5000 (Some 9000) False False)
             (Resolved ()) (Resolved 3)) second_selected
     = second_selected\<lparr>position := 5000, duration := 9000, isPlaying := False\<rparr> \<and>
   commit (onPlaybackStatusUpdate two_tracks (Loaded 5000 (Some 9000) False False)
             (Resolved ()) (Resolved 3)) second_selected \<noteq> second_selected"
  by (simp add: second_selected_def first_selected_def two_tracks_def initial_def track_a_def
        track_b_def select_ok_def playAudio_def onPlaybackStatusUpdate_def commit_Nil commit_Cons)

lemma playAudio_resolved:
  assumes "0 \<le> j" and "j < int (length (audioAssets c))"
  shows "playAudio c j (Resolved ()) (Resolved g) =
           (case playbackInstance c of
              None \<Rightarrow> []
            | Some prev \<Rightarrow> [UnloadAsync prev, SetPlaybackInstance None]) @
           [CreateAsync (uri (audioAssets c ! nat j)) True,
            SetPlaybackInstance (Some g), SetCurrentTrackIndex j, SetIsPlaying True]"
  using assms by (cases "playbackInstance c") (simp_all add: playAudio_def)

text \<open>
  C1, as the code has it. There is no generation number. \<open>playAudio(j)\<close> unloads
  the session that the render of its handler holds, and no other, before it
  creates the new one. Run by the handler of the render that followed the
  completed selection of track \<open>i\<close>, it issues the unload of that earlier session
  first. Run by a handler whose render holds no session, as for a second tap
  before the first load has resolved, it issues no unload at all and the earlier
  sound stays loaded. In both cases the later session is the one held once its
  load has resolved. A loaded status event handled in any state \<open>t\<close>, by the
  callback of any render \<open>c\<close>, is applied whatever session it came from:
  \<open>isPlaying\<close> is taken from the event, \<open>position\<close> and \<open>duration\<close> too unless that
  callback's \<open>isSeeking\<close> is set, and a finished flag starts the next-track
  transition.
\<close>

theorem superseded_session_unloaded_then_events_applied:
  assumes "0 \<le> i" and "i < int (length (audioAssets s))"
    and "0 \<le> j" and "j < int (length (audioAssets s))"
    and "audioAssets c2 = audioAssets s"
  shows "playAudio (select_ok i g1 s) j (Resolved ()) (Resolved g2) =
           [UnloadAsync g1, SetPlaybackInstance None,
            CreateAsync (uri (audioAssets s ! nat j)) True,
            SetPlaybackInstance (Some g2), SetCurrentTrackIndex j, SetIsPlaying True] \<and>
         playbackInstance (select_ok j g2 (select_ok i g1 s)) = Some g2 \<and>
         commit (onPlaybackStatusUpdate c (Loaded p d pl fin) u cr)
                (select_ok j g2 (select_ok i g1 s)) =
           commit (if fin then handleNext c u cr else [])
             ((select_ok j g2 (select_ok i g1 s))
                \<lparr>position := (if isSeeking c then position s else p),
                 duration := (if isSeeking c then duration s
                              else (case d of None \<Rightarrow> 0 | Some x \<Rightarrow> x)),
                 isPlaying := pl\<rparr>) \<and>
         playAudio c2 j (Resolved ()) (Resolved g2) =
           (case playbackInstance c2 of
              None \<Rightarrow> []
            | Some prev \<Rightarrow> [UnloadAsync prev, SetPlaybackInstance None]) @
           [CreateAsync (uri (audioAssets s ! nat j)) True,
            SetPlaybackInstance (Some g2), SetCurrentTrackIndex j, SetIsPlaying True] \<and>
         (playbackInstance c2 = None \<longrightarrow>
            engine_calls (playAudio c2 j (Resolved ()) (Resolved g2)) =
              [CreateAsync (uri (audioAssets s ! nat j)) True] \<and>
            playbackInstance (select_ok i g1 s) = Some g1 \<and>
            UnloadAsync g1 \<notin> set (playAudio c2 j (Resolved ()) (Resolved g2))) \<and>
         playbackInstance (commit (playAudio c2 j (Resolved ()) (Resolved g2)) t) = Some g2 \<and>
         commit (onPlaybackStatusUpdate c (Loaded p d pl fin) u cr) t =
           commit (if fin then handleNext c u cr else [])
             (t\<lparr>position := (if isSeeking c then position t else p),
                duration := (if isSeeking c then duration t
                             else (case d of None \<Rightarrow> 0 | Some x \<Rightarrow> x)),
                isPlaying := pl\<rparr>)"
proof -
  have s1: "select_ok i g1 s =
            s\<lparr>playbackInstance := Some g1, currentTrackIndex := i, isPlaying := True\<rparr>"
    by (rule select_ok_eq [OF assms(1,2)])
  have j1: "j < int (length (audioAssets (select_ok i g1 s)))"
    using assms(4) by (simp add: s1)
  have s2: "select_ok j g2 (select_ok i g1 s) =
            (select_ok i g1 s)\<lparr>playbackInstance := Some g2, currentTrackIndex := j, isPlaying := True\<rparr>"
    by (rule select_ok_eq [OF assms(3) j1])
  have a: "playAudio (select_ok i g1 s) j (Resolved ()) (Resolved g2) =
           [UnloadAsync g1, SetPlaybackInstance None,
            CreateAsync (uri (audioAssets s ! nat j)) True,
            SetPlaybackInstance (Some g2), SetCurrentTrackIndex j, SetIsPlaying True]"
    using assms(3,4) by (simp add: s1 playAudio_def)
  have b: "playbackInstance (select_ok j g2 (select_ok i g1 s)) = Some g2"
    by (simp add: s2)
  have p: "position (select_ok j g2 (select_ok i g1 s)) = position s"
    and d: "duration (select_ok j g2 (select_ok i g1 s)) = duration s"
    using s2 by (simp_all add: s1)
  have j2: "j < int (length (audioAssets c2))"
    using assms(4,5) by simp
  have e: "playAudio c2 j (Resolved ()) (Resolved g2) =
           (case playbackInstance c2 of
              None \<Rightarrow> []
            | Some prev \<Rightarrow> [UnloadAsync prev, SetPlaybackInstance None]) @
           [CreateAsync (uri (audioAssets s ! nat j)) True,
            SetPlaybackInstance (Some g2), SetCurrentTrackIndex j, SetIsPlaying True]"
    using playAudio_resolved [OF assms(3) j2, of g2] by (simp add: assms(5))
  have f: "playbackInstance c2 = None \<longrightarrow>
            engine_calls (playAudio c2 j (Resolved ()) (Resolved g2)) =
              [CreateAsync (uri (audioAssets s ! nat j)) True] \<and>
            playbackInstance (select_ok i g1 s) = Some g1 \<and>
            UnloadAsync g1 \<notin> set (playAudio c2 j (Resolved ()) (Resolved g2))"
    by (simp add: e s1 engine_calls_def)
  have g: "playbackInstance (commit (playAudio c2 j (Resolved ()) (Resolved g2)) t) = Some g2"
    by (simp add: playAudio_ok [OF assms(3) j2])
  have h: "commit (onPlaybackStatusUpdate c (Loaded p d pl fin) u cr)
                (select_ok j g2 (select_ok i g1 s)) =
           commit (if fin then handleNext c u cr else [])
             ((select_ok j g2 (select_ok i g1 s))
                \<lparr>position := (if isSeeking c then position s else p),
                 duration := (if isSeeking c then duration s
                              else (case d of None \<Rightarrow> 0 | Some x \<Rightarrow> x)),
                 isPlaying := pl\<rparr>)"
    by (simp only: status_loaded_commit p d)
  show ?thesis
    using a b h e f g status_loaded_commit [of c p d pl fin u cr t] by blast
qed

theorem superseded_session_unloaded_then_events_applied_witness:
  "playAudio first_selected 1 (Resolved ()) (Resolved 2) =
     [UnloadAsync 1, SetPlaybackInstance None, CreateAsync ''file:///b.mp3'' True,
      SetPlaybackInstance (Some 2), SetCurrentTrackIndex 1, SetIsPlaying True] \<and>
   playbackInstance second_selected = Some 2 \<and>
   isPlaying (commit (onPlaybackStatusUpdate two_tracks (Loaded 5000 None False False)
             (Resolved ()) (Resolved 3)) second_selected) = False \<and>
   playbackInstance two_tracks = None \<and>
   playAudio two_tracks 1 (Resolved ()) (Resolved 2) =
     [CreateAsync ''file:///b.mp3'' True,
      SetPlaybackInstance (Some 2), SetCurrentTrackIndex 1, SetIsPlaying True] \<and>
   engine_calls (playAudio two_tracks 1 (Resolved ()) (Resolved 2)) =
     [CreateAsync ''file:///b.mp3'' True] \<and>
   playbackInstance first_selected = Some 1 \<and>
   UnloadAsync 1 \<notin> set (playAudio two_tracks 1 (Resolved ()) (Resolved 2)) \<and>
   playbackInstance (commit (playAudio two_tracks 1 (Resolved ()) (Resolved 2)) first_selected)
     = Some 2"
  using superseded_session_unloaded_then_events_applied
          [of 0 two_tracks 1 two_tracks 1 2 two_tracks 5000 None False False
              "Resolved ()" "Resolved 3" first_selected]
  by (simp add: second_selected_def first_selected_def two_tracks_def initial_def track_a_def
        track_b_def select_ok_def playAudio_def onPlaybackStatusUpdate_def commit_Nil commit_Cons
        engine_calls_def)

subsection \<open>A load that fails\<close>

text \<open>
  With the first track selected, the load of the second one is rejected:
  \<open>currentTrackIndex\<close> is still 0 afterwards, not \<open>-1\<close>.
\<close>

theorem failed_load_keeps_stale_index:
  "currentTrackIndex first_selected = 0 \<and>
   currentTrackIndex
     (commit (playAudio first_selected 1 (Resolved ()) (Rejected ''load failed'')) first_selected)
     \<noteq> - 1"
  by (simp add: first_selected_def two_tracks_def initial_def select_ok_def playAudio_def
        commit_Nil commit_Cons)

text \<open>
  C2, as the code has it. When \<open>createAsync\<close> is rejected inside
  \<open>playAudio(index)\<close>, the handler has by then issued \<open>unloadAsync\<close> on the
  session held before, if there was one, and set \<open>playbackInstance\<close> to \<open>null\<close>;
  the error is caught and written to the console as the handler's last action.
  Every other state cell, \<open>currentTrackIndex\<close> and \<open>isPlaying\<close> among them,
  keeps the value it had.
\<close>

theorem failed_load_reported_session_dropped:
  assumes "0 \<le> index" and "index < int (length (audioAssets s))"
  shows "last (playAudio s index (Resolved ()) (Rejected e)) = ConsoleError ''Error playing audio:'' e \<and>
         commit (playAudio s index (Resolved ()) (Rejected e)) s = s\<lparr>playbackInstance := None\<rparr> \<and>
         playAudio s index (Resolved ()) (Rejected e) =
           (case playbackInstance s of
              None \<Rightarrow> []
            | Some prev \<Rightarrow> [UnloadAsync prev, SetPlaybackInstance None]) @
           [CreateAsync (uri (audioAssets s ! nat index)) True,
            ConsoleError ''Error playing audio:'' e] \<and>
         engine_calls (playAudio s index (Resolved ()) (Rejected e)) =
           (case playbackInstance s of None \<Rightarrow> [] | Some prev \<Rightarrow> [UnloadAsync prev]) @
           [CreateAsync (uri (audioAssets s ! nat index)) True]"
  using assms
  by (cases "playbackInstance s")
     (simp_all add: playAudio_def commit_Nil commit_Cons engine_calls_def)

theorem failed_load_reported_session_dropped_witness:
  "last (playAudio first_selected 1 (Resolved ()) (Rejected ''load failed'')) =
     ConsoleError ''Error playing audio:'' ''load failed'' \<and>
   second_failed = first_selected\<lparr>playbackInstance := None\<rparr> \<and>
   currentTrackIndex second_failed = 0 \<and> isPlaying second_failed \<and>
   playbackInstance first_selected = Some 1 \<and>
   playAudio first_selected 1 (Resolved ()) (Rejected ''load failed'') =
     [UnloadAsync 1, SetPlaybackInstance None, CreateAsync ''file:///b.mp3'' True,
      ConsoleError ''Error playing audio:'' ''load failed''] \<and>
   engine_calls (playAudio first_selected 1 (Resolved ()) (Rejected ''load failed'')) =
     [UnloadAsync 1, CreateAsync ''file:///b.mp3'' True]"
  using failed_load_reported_session_dropped [of 1 first_selected "''load failed''"]
  by (simp add: second_failed_def first_selected_def two_tracks_def initial_def track_a_def
        track_b_def select_ok_def playAudio_def commit_Nil commit_Cons engine_calls_def)

subsection \<open>The three-way equivalence\<close>

text \<open>
  The equivalence holds initially and after the first track is selected. The
  engine then reports the session as loaded and not playing, as it does after a
  pause: \<open>isPlaying\<close> is false while a track is selected and its session is held.
\<close>

theorem pause_breaks_three_way:
  "three_way two_tracks \<and> three_way first_selected \<and>
   \<not> three_way (commit (perform first_selected
        (EngineStatus (Loaded 1000 (Some 9000) False False) (Resolved ()) (Resolved 2)))
        first_selected)"
  by (simp add: three_way_def two_tracks_def first_selected_def select_ok_def initial_def
        playAudio_def onPlaybackStatusUpdate_def commit_Nil commit_Cons)

lemma playAudio_no_track_no_session:
  assumes "no_track_no_session s"
  shows "no_track_no_session (commit (playAudio c i u cr) s)"
  using assms playAudio_outcome [of c i u cr s]
  by (auto simp add: no_track_no_session_def)

lemma playAudio_no_track_not_playing:
  assumes "no_track_not_playing s"
  shows "no_track_not_playing (commit (playAudio c i u cr) s)"
  using assms playAudio_outcome [of c i u cr s]
  by (auto simp add: no_track_not_playing_def)

lemma handleNext_no_track_no_session:
  "no_track_no_session s \<Longrightarrow> no_track_no_session (commit (handleNext c u cr) s)"
  by (simp add: handleNext_def Let_def commit_Nil playAudio_no_track_no_session)

lemma handleNext_no_track_not_playing:
  "no_track_not_playing s \<Longrightarrow> no_track_not_playing (commit (handleNext c u cr) s)"
  by (simp add: handleNext_def Let_def commit_Nil playAudio_no_track_not_playing)

lemma handlePrevious_no_track_no_session:
  "no_track_no_session s \<Longrightarrow> no_track_no_session (commit (handlePrevious c u cr) s)"
  by (simp add: handlePrevious_def Let_def commit_Nil playAudio_no_track_no_session)

lemma handlePrevious_no_track_not_playing:
  "no_track_not_playing s \<Longrightarrow> no_track_not_playing (commit (handlePrevious c u cr) s)"
  by (simp add: handlePrevious_def Let_def commit_Nil playAudio_no_track_not_playing)

lemma status_no_track_no_session:
  assumes "no_track_no_session s"
  shows "no_track_no_session (commit (onPlaybackStatusUpdate c status u cr) s)"
proof (cases status)
  case (NotLoaded err)
  then show ?thesis
    using assms by (simp add: onPlaybackStatusUpdate_def commit_Nil commit_Cons split: option.splits)
next
  case (Loaded p d pl fin)
  let ?s = "s\<lparr>position := (if isSeeking c then position s else p),
        duration := (if isSeeking c then duration s else (case d of None \<Rightarrow> 0 | Some x \<Rightarrow> x)),
        isPlaying := pl\<rparr>"
  have "no_track_no_session ?s" using assms by (simp add: no_track_no_session_def)
  then have "no_track_no_session (commit (if fin then handleNext c u cr else []) ?s)"
    by (simp add: commit_Nil handleNext_no_track_no_session)
  then show ?thesis by (simp only: Loaded status_loaded_commit)
qed

lemma perform_no_track_no_session:
  assumes "no_track_no_session s"
  shows "no_track_no_session (commit (perform c op) s)"
proof (cases op)
  case (SelectTrack i u cr)
  then show ?thesis using assms by (simp add: playAudio_no_track_no_session)
next
  case TogglePlayPause
  then show ?thesis
    using assms by (simp add: handlePlayPause_def commit_Nil commit_Cons split: option.splits)
next
  case (Next u cr)
  then show ?thesis using assms by (simp add: handleNext_no_track_no_session)
next
  case (Previous u cr)
  then show ?thesis using assms by (simp add: handlePrevious_no_track_no_session)
next
  case (BeginSeek v)
  then show ?thesis
    using assms by (simp add: handleSliderValueChange_def commit_Nil commit_Cons no_track_no_session_def)
next
  case (CommitSeek v r)
  then show ?thesis
    using assms
    by (simp add: handleSlidingComplete_def commit_Nil commit_Cons no_track_no_session_def
          split: option.splits promise.splits)
next
  case (EngineStatus st u cr)
  then show ?thesis using assms by (simp add: status_no_track_no_session)
qed

lemma perform_no_track_not_playing:
  assumes "no_track_not_playing s" and "\<not> is_status op"
  shows "no_track_not_playing (commit (perform c op) s)"
proof (cases op)
  case (SelectTrack i u cr)
  then show ?thesis using assms by (simp add: playAudio_no_track_not_playing)
next
  case TogglePlayPause
  then show ?thesis
    using assms by (simp add: handlePlayPause_def commit_Nil commit_Cons split: option.splits)
next
  case (Next u cr)
  then show ?thesis using assms by (simp add: handleNext_no_track_not_playing)
next
  case (Previous u cr)
  then show ?thesis using assms by (simp add: handlePrevious_no_track_not_playing)
next
  case (BeginSeek v)
  then show ?thesis
    using assms by (simp add: handleSliderValueChange_def commit_Nil commit_Cons no_track_not_playing_def)
next
  case (CommitSeek v r)
  then show ?thesis
    using assms
    by (simp add: handleSlidingComplete_def commit_Nil commit_Cons no_track_not_playing_def
          split: option.splits promise.splits)
next
  case (EngineStatus st u cr)
  then show ?thesis using assms by simp
qed

text \<open>
  C3, as the code has it. "No track selected implies no session exists" holds in
  the initial state and is preserved by every operation, run by the handler of any
  render \<open>c\<close>, on every path, the error paths included. "No track selected implies
  not playing" holds in the initial state and is preserved by every operation
  other than a status event, which copies the event's flag whatever the state is.
\<close>

theorem no_track_implies_no_session_invariant:
  "no_track_no_session (initial tracks) \<and>
   no_track_not_playing (initial tracks) \<and>
   (no_track_no_session s \<longrightarrow> no_track_no_session (commit (perform c op) s)) \<and>
   (no_track_not_playing s \<and> \<not> is_status op \<longrightarrow> no_track_not_playing (commit (perform c op) s))"
  by (simp add: perform_no_track_no_session perform_no_track_not_playing)
     (simp add: no_track_no_session_def no_track_not_playing_def initial_def)

theorem no_track_implies_no_session_invariant_witness:
  "no_track_no_session two_tracks \<and>
   no_track_no_session
     (commit (perform two_tracks (SelectTrack 1 (Resolved ()) (Rejected ''load failed''))) two_tracks) \<and>
   no_track_not_playing two_tracks \<and> \<not> is_status (Next (Resolved ()) (Resolved 1)) \<and>
   no_track_not_playing (commit (perform two_tracks (Next (Resolved ()) (Resolved 1))) two_tracks)"
  using no_track_implies_no_session_invariant
          [of "[track_a, track_b]" two_tracks two_tracks
              "SelectTrack 1 (Resolved ()) (Rejected ''load failed'')"]
        no_track_implies_no_session_invariant
          [of "[track_a, track_b]" two_tracks two_tracks "Next (Resolved ()) (Resolved 1)"]
  by (simp add: two_tracks_def)

subsection \<open>Next and previous\<close>

text \<open>
  From the initial state of a list of two tracks, where \<open>currentTrackIndex\<close> is
  \<open>-1\<close>, two presses of next lead to index 1: the start value is not reached
  again.
\<close>

theorem next_from_no_track_does_not_return:
  "length [1, 2 :: sound] = length (audioAssets two_tracks) \<and>
   currentTrackIndex two_tracks = - 1 \<and>
   currentTrackIndex (fold next_ok [1, 2] two_tracks) = 1 \<and>
   currentTrackIndex (fold next_ok [1, 2] two_tracks) \<noteq> currentTrackIndex two_tracks"
  by (simp add: two_tracks_def initial_def next_ok_def handleNext_def playAudio_def
        commit_Nil commit_Cons)

text \<open>
  C4, as the code has it. When \<open>currentTrackIndex\<close> is an index of the track
  list, pressing next as many times as there are tracks, each load succeeding,
  brings \<open>currentTrackIndex\<close> back to its value; \<open>handleNext\<close> passes
  \<open>(currentTrackIndex + 1) mod len\<close> to \<open>playAudio\<close>.
\<close>

theorem next_wraps_around:
  assumes "0 \<le> currentTrackIndex s"
    and "currentTrackIndex s < int (length (audioAssets s))"
    and "length gs = length (audioAssets s)"
  shows "currentTrackIndex (fold next_ok gs s) = currentTrackIndex s \<and>
         currentTrackIndex (next_ok g s) =
           (currentTrackIndex s + 1) mod int (length (audioAssets s)) \<and>
         handleNext s u cr =
           playAudio s ((currentTrackIndex s + 1) mod int (length (audioAssets s))) u cr"
proof -
  have "currentTrackIndex (fold next_ok gs s) =
        (currentTrackIndex s + int (length gs)) mod int (length (audioAssets s))"
    using fold_next_ok [OF assms(1,2)] by simp
  also have "\<dots> = currentTrackIndex s"
    using assms by (simp add: mod_pos_pos_trivial)
  finally have "currentTrackIndex (fold next_ok gs s) = currentTrackIndex s" .
  moreover have "currentTrackIndex (next_ok g s) =
           (currentTrackIndex s + 1) mod int (length (audioAssets s))"
    by (simp add: next_ok_index [OF assms(1,2)])
  ultimately show ?thesis
    using handleNext_in_range [OF assms(1,2)] by simp
qed

theorem next_wraps_around_witness:
  "currentTrackIndex first_selected = 0 \<and>
   currentTrackIndex (fold next_ok [2, 3] first_selected) = 0 \<and>
   currentTrackIndex (next_ok 2 first_selected) = 1"
  using next_wraps_around [of first_selected "[2, 3]" 2]
  by (simp add: first_selected_def two_tracks_def initial_def select_ok_def playAudio_def
        commit_Nil commit_Cons)

text \<open>
  From the same initial state, next leads to index 0 and previous from there to
  index 1, the last track, not back to \<open>-1\<close>.
\<close>

theorem previous_after_next_from_no_track:
  "currentTrackIndex two_tracks = - 1 \<and>
   currentTrackIndex (previous_ok 2 (next_ok 1 two_tracks)) = 1 \<and>
   currentTrackIndex (previous_ok 2 (next_ok 1 two_tracks)) \<noteq> currentTrackIndex two_tracks"
  by (simp add: two_tracks_def initial_def next_ok_def previous_ok_def handleNext_def
        handlePrevious_def playAudio_def commit_Nil commit_Cons)

text \<open>
  C5, as the code has it. When \<open>currentTrackIndex\<close> is an index \<open>i\<close> of the
  track list, previous after next, each load succeeding, leads back to \<open>i\<close>;
  next leads to \<open>(i + 1) mod len\<close> and previous to \<open>(i - 1 + len) mod len\<close>.
\<close>

theorem previous_inverts_next:
  assumes "0 \<le> currentTrackIndex s"
    and "currentTrackIndex s < int (length (audioAssets s))"
  shows "currentTrackIndex (previous_ok g2 (next_ok g1 s)) = currentTrackIndex s \<and>
         currentTrackIndex (next_ok g1 s) =
           (currentTrackIndex s + 1) mod int (length (audioAssets s)) \<and>
         currentTrackIndex (previous_ok g2 s) =
           (currentTrackIndex s - 1 + int (length (audioAssets s)))
             mod int (length (audioAssets s))"
proof -
  let ?n = "int (length (audioAssets s))"
  let ?s' = "next_ok g1 s"
  have n: "0 < ?n" using assms by linarith
  have s': "?s' = s\<lparr>playbackInstance := Some g1,
            currentTrackIndex := (currentTrackIndex s + 1) mod ?n, isPlaying := True\<rparr>"
    by (rule next_ok_index [OF assms])
  have a: "audioAssets ?s' = audioAssets s" and i: "currentTrackIndex ?s' = (currentTrackIndex s + 1) mod ?n"
    by (simp_all add: s')
  have r: "0 \<le> currentTrackIndex ?s'" "currentTrackIndex ?s' < int (length (audioAssets ?s'))"
    using n by (simp_all add: i a)
  have "currentTrackIndex (previous_ok g2 ?s') =
        (currentTrackIndex ?s' - 1 + int (length (audioAssets ?s'))) mod int (length (audioAssets ?s'))"
    by (simp add: previous_ok_index [OF r])
  also have "\<dots> = ((currentTrackIndex s + 1) mod ?n - 1 + ?n) mod ?n"
    by (simp only: a i)
  also have "\<dots> = ((currentTrackIndex s + 1) mod ?n - 1) mod ?n"
    by simp
  also have "\<dots> = (currentTrackIndex s + 1 - 1) mod ?n"
    by (rule mod_diff_left_eq)
  also have "\<dots> = currentTrackIndex s"
    using assms by (simp add: mod_pos_pos_trivial)
  finally have "currentTrackIndex (previous_ok g2 ?s') = currentTrackIndex s" .
  then show ?thesis
    by (simp add: i previous_ok_index [OF assms])
qed

theorem previous_inverts_next_witness:
  "currentTrackIndex second_selected = 1 \<and>
   currentTrackIndex (previous_ok 4 (next_ok 3 second_selected)) = 1 \<and>
   currentTrackIndex (next_ok 3 second_selected) = 0 \<and>
   currentTrackIndex (previous_ok 4 second_selected) = 0"
  using previous_inverts_next [of second_selected 4 3]
  by (simp add: second_selected_def first_selected_def two_tracks_def initial_def select_ok_def
        playAudio_def commit_Nil commit_Cons)

subsection \<open>Seeking\<close>

text \<open>
  C6. In a state with a session and \<open>isPlaying\<close> false, \<open>commitSeek(v)\<close> issues
  \<open>setPositionAsync(v)\<close> as its only engine call, not \<open>playFromPositionAsync\<close>,
  and leaves \<open>isPlaying\<close> as it was, whether or not the engine accepts the call.
  In a state with no session it issues no engine call and only clears
  \<open>isSeeking\<close>.
\<close>

theorem commitSeek_paused_or_no_session:
  "(playbackInstance c = Some inst \<and> \<not> isPlaying c \<longrightarrow>
      engine_calls (handleSlidingComplete c v sought) = [SetPositionAsync inst v] \<and>
      PlayFromPositionAsync inst v \<notin> set (handleSlidingComplete c v sought) \<and>
      isPlaying (commit (handleSlidingComplete c v sought) s) = isPlaying s) \<and>
   (playbackInstance c = None \<longrightarrow>
      engine_calls (handleSlidingComplete c v sought) = [] \<and>
      handleSlidingComplete c v sought = [SetIsSeeking False] \<and>
      commit (handleSlidingComplete c v sought) s = s\<lparr>isSeeking := False\<rparr>)"
  by (cases sought)
     (simp_all add: handleSlidingComplete_def engine_calls_def commit_Nil commit_Cons)

theorem commitSeek_paused_or_no_session_witness:
  "playbackInstance first_paused = Some 1 \<and> \<not> isPlaying first_paused \<and>
   engine_calls (handleSlidingComplete first_paused 3000 (Resolved ())) = [SetPositionAsync 1 3000] \<and>
   isPlaying (commit (handleSlidingComplete first_paused 3000 (Resolved ())) first_paused) = False \<and>
   playbackInstance second_failed = None \<and>
   handleSlidingComplete second_failed 3000 (Resolved ()) = [SetIsSeeking False]"
  using commitSeek_paused_or_no_session [of first_paused 1 3000 "Resolved ()" first_paused]
        commitSeek_paused_or_no_session [of second_failed 1 3000 "Resolved ()" second_failed]
  by (simp add: first_paused_def second_failed_def first_selected_def two_tracks_def initial_def
        select_ok_def playAudio_def onPlaybackStatusUpdate_def commit_Nil commit_Cons)

text \<open>
  After the failed load of the second track the first track still counts as
  selected, so the slider is shown, but no session is held: a drag over two values
  and a release issue no engine call at all, not one.
\<close>

theorem seek_gesture_without_session_issues_nothing:
  "playbackInstance second_failed = None \<and> currentTrackIndex second_failed = 0 \<and>
   engine_calls (seek_gesture [1000, 2000] 3000 (Resolved ()) second_failed) = []"
  by (simp add: second_failed_def first_selected_def two_tracks_def initial_def
        select_ok_def playAudio_def commit_Nil commit_Cons engine_calls_def
        handleSliderValueChange_def handleSlidingComplete_def)

lemma engine_calls_append: "engine_calls (xs @ ys) = engine_calls xs @ engine_calls ys"
  by (simp add: engine_calls_def)

lemma beginSeek_commit:
  "commit (handleSliderValueChange c x) s = s\<lparr>isSeeking := True, position := x\<rparr>"
  by (simp add: handleSliderValueChange_def commit_Nil commit_Cons)

lemma seek_gesture_engine_calls:
  "engine_calls (seek_gesture xs v sought s) =
     (case playbackInstance s of
        None \<Rightarrow> []
      | Some inst \<Rightarrow> [if isPlaying s then PlayFromPositionAsync inst v else SetPositionAsync inst v])"
proof (induction xs arbitrary: s)
  case Nil
  show ?case
    by (cases sought)
       (simp_all add: handleSlidingComplete_def engine_calls_def split: option.splits)
next
  case (Cons x xs)
  have "engine_calls (handleSliderValueChange s x) = []"
    by (simp add: handleSliderValueChange_def engine_calls_def)
  then show ?case
    by (simp add: Let_def engine_calls_append Cons.IH beginSeek_commit split: option.splits)
qed

lemma seek_gesture_commit:
  "commit (seek_gesture (x # xs) v (Resolved ()) s) s =
     s\<lparr>position := last (x # xs), isSeeking := False\<rparr>"
proof -
  have "\<And>s0. commit (seek_gesture xs v (Resolved ()) (s0\<lparr>isSeeking := True, position := x\<rparr>))
                   (s0\<lparr>isSeeking := True, position := x\<rparr>)
            = s0\<lparr>position := last (x # xs), isSeeking := False\<rparr>"
  proof (induction xs arbitrary: x)
    case Nil
    show ?case
      by (simp add: handleSlidingComplete_def commit_Nil commit_Cons split: option.splits)
  next
    case (Cons y ys)
    have "commit (seek_gesture (y # ys) v (Resolved ()) (s0\<lparr>isSeeking := True, position := x\<rparr>))
             (s0\<lparr>isSeeking := True, position := x\<rparr>)
          = commit (seek_gesture ys v (Resolved ()) (s0\<lparr>isSeeking := True, position := y\<rparr>))
             (s0\<lparr>isSeeking := True, position := y\<rparr>)"
      by (simp add: Let_def commit_append beginSeek_commit)
    then show ?case by (simp add: Cons.IH)
  qed
  then show ?thesis
    by (simp add: Let_def commit_append beginSeek_commit)
qed

text \<open>
  C7, as the code has it. A \<open>beginSeek\<close> call followed by any number of further
  \<open>beginSeek\<close> calls and one \<open>commitSeek(v)\<close> issues exactly one engine call
  when a session is held, \<open>playFromPositionAsync(v)\<close> if playing and
  \<open>setPositionAsync(v)\<close> if not, and none when no session is held. No
  \<open>beginSeek\<close> issues an engine call; each only sets \<open>isSeeking\<close> to true and
  \<open>position\<close> to its value, so that once the seek is committed the position
  shown is the last value dragged to.
\<close>

theorem seek_gesture_one_command_when_session:
  "(playbackInstance s = Some inst \<longrightarrow>
      engine_calls (seek_gesture (x # xs) v sought s) =
        [if isPlaying s then PlayFromPositionAsync inst v else SetPositionAsync inst v]) \<and>
   (playbackInstance s = None \<longrightarrow> engine_calls (seek_gesture (x # xs) v sought s) = []) \<and>
   engine_calls (handleSliderValueChange c x) = [] \<and>
   commit (handleSliderValueChange c x) s = s\<lparr>isSeeking := True, position := x\<rparr> \<and>
   commit (seek_gesture (x # xs) v (Resolved ()) s) s =
     s\<lparr>position := last (x # xs), isSeeking := False\<rparr>"
proof -
  have "engine_calls (handleSliderValueChange c x) = []"
    by (simp add: handleSliderValueChange_def engine_calls_def)
  then show ?thesis
    by (simp add: seek_gesture_engine_calls seek_gesture_commit beginSeek_commit
          del: seek_gesture.simps)
qed

theorem seek_gesture_one_command_when_session_witness:
  "playbackInstance first_selected = Some 1 \<and>
   engine_calls (seek_gesture [1000, 2000] 3000 (Resolved ()) first_selected) =
     [PlayFromPositionAsync 1 3000] \<and>
   position (commit (seek_gesture [1000, 2000] 3000 (Resolved ()) first_selected) first_selected)
     = 2000 \<and>
   playbackInstance two_tracks = None \<and>
   engine_calls (seek_gesture [1000, 2000] 3000 (Resolved ()) two_tracks) = []"
  using seek_gesture_one_command_when_session
          [of first_selected 1 1000 "[2000]" 3000 "Resolved ()" first_selected]
        seek_gesture_one_command_when_session
          [of two_tracks 1 1000 "[2000]" 3000 "Resolved ()" two_tracks]
  by (simp add: first_selected_def two_tracks_def initial_def
        select_ok_def playAudio_def commit_Nil commit_Cons Let_def engine_calls_def
        handleSliderValueChange_def handleSlidingComplete_def)

subsection \<open>Reconciling a loaded status\<close>

lemma playAudio_position_duration:
  "position (commit (playAudio c i u cr) s) = position s \<and>
   duration (commit (playAudio c i u cr) s) = duration s"
  using playAudio_outcome [of c i u cr s] by auto

lemma handleNext_position_duration:
  "position (commit (handleNext c u cr) s) = position s \<and>
   duration (commit (handleNext c u cr) s) = duration s"
  by (simp add: handleNext_def Let_def commit_Nil playAudio_position_duration)

lemma playAudio_isPlaying:
  "isPlaying (commit (playAudio c i u cr) s) =
     (isPlaying s \<or> SetIsPlaying True \<in> set (playAudio c i u cr))"
  by (cases "playbackInstance c"; cases u; cases cr)
     (simp_all add: playAudio_def commit_Nil commit_Cons)

lemma handleNext_isPlaying:
  "isPlaying (commit (handleNext c u cr) s) =
     (isPlaying s \<or> SetIsPlaying True \<in> set (handleNext c u cr))"
  by (simp add: handleNext_def Let_def commit_Nil playAudio_isPlaying)

text \<open>
  What the handler does with a loaded status, relative to the render \<open>c\<close> it closed
  over: if that render's \<open>isSeeking\<close> is false, \<open>position\<close> and \<open>duration\<close>
  become those of the event, an absent duration counting as 0; if it is true they
  stay as they were. In both cases the handler calls \<open>setIsPlaying\<close> with the
  event's flag, which stands at the end of the handler unless the event also
  reports that the track just finished and the next-track transition loads a
  track.
\<close>

lemma loaded_status_reads_closure:
  "position (commit (onPlaybackStatusUpdate c (Loaded p d pl fin) u cr) s) =
     (if isSeeking c then position s else p) \<and>
   duration (commit (onPlaybackStatusUpdate c (Loaded p d pl fin) u cr) s) =
     (if isSeeking c then duration s else (case d of None \<Rightarrow> 0 | Some x \<Rightarrow> x)) \<and>
   SetIsPlaying pl \<in> set (onPlaybackStatusUpdate c (Loaded p d pl fin) u cr) \<and>
   isPlaying (commit (onPlaybackStatusUpdate c (Loaded p d pl fin) u cr) s) =
     (pl \<or> (fin \<and> SetIsPlaying True \<in> set (handleNext c u cr)))"
proof -
  have "SetIsPlaying pl \<in> set (onPlaybackStatusUpdate c (Loaded p d pl fin) u cr)"
    by (simp add: onPlaybackStatusUpdate_def)
  then show ?thesis
    by (simp add: status_loaded_commit commit_Nil handleNext_position_duration
          handleNext_isPlaying)
qed

text \<open>
  C8. For every loaded status event, \<open>position\<close> and \<open>duration\<close> are to be left
  unchanged while \<open>isSeeking\<close> is true. The guard of line 82 is there for that,
  but the \<open>isSeeking\<close> it reads is that of the render in which the callback was
  created. The callback of a session is handed to \<open>createAsync\<close> once, at line
  106, by the \<open>playAudio\<close> that creates the session, and is never bound again.
  Sound 1 was created by the \<open>playAudio(0)\<close> of the initial render, where
  \<open>isSeeking\<close> is false. While the slider is being dragged (\<open>isSeeking\<close> true,
  \<open>position\<close> 1000), a loaded status of sound 1 with position 5000 and duration
  9000 overwrites both.
\<close>

theorem status_during_drag_overwrites_position:
  "first_selected = commit (playAudio two_tracks 0 (Resolved ()) (Resolved 1)) two_tracks \<and>
   playbackInstance first_seeking = Some 1 \<and>
   isSeeking first_seeking \<and> position first_seeking = 1000 \<and> duration first_seeking = 0 \<and>
   position (commit (onPlaybackStatusUpdate two_tracks (Loaded 5000 (Some 9000) True False)
               (Resolved ()) (Resolved 2)) first_seeking) = 5000 \<and>
   duration (commit (onPlaybackStatusUpdate two_tracks (Loaded 5000 (Some 9000) True False)
               (Resolved ()) (Resolved 2)) first_seeking) = 9000"
  by (simp add: first_seeking_def first_selected_def two_tracks_def initial_def select_ok_def
        playAudio_def handleSliderValueChange_def onPlaybackStatusUpdate_def commit_Nil commit_Cons)

subsection \<open>Next and previous before any selection\<close>

text \<open>
  C10. With \<open>currentTrackIndex = -1\<close> and a non-empty track list,
  \<open>handleNext\<close> calls \<open>playAudio(0)\<close> and \<open>handlePrevious\<close> calls
  \<open>playAudio(len - 1)\<close>. Both indices are inside the list: the engine is asked
  to load the first, respectively the last, track with autoplay, and when the load
  succeeds that track is the selected one and \<open>isPlaying\<close> is true.
\<close>

theorem next_previous_from_no_track:
  assumes "currentTrackIndex s = - 1" and "audioAssets s \<noteq> []"
  shows "handleNext s u cr = playAudio s 0 u cr \<and>
         handlePrevious s u cr = playAudio s (int (length (audioAssets s)) - 1) u cr \<and>
         next_ok g s = s\<lparr>playbackInstance := Some g, currentTrackIndex := 0, isPlaying := True\<rparr> \<and>
         previous_ok g s = s\<lparr>playbackInstance := Some g,
            currentTrackIndex := int (length (audioAssets s)) - 1, isPlaying := True\<rparr> \<and>
         last (engine_calls (handleNext s (Resolved ()) cr)) =
           CreateAsync (uri (hd (audioAssets s))) True \<and>
         last (engine_calls (handlePrevious s (Resolved ()) cr)) =
           CreateAsync (uri (last (audioAssets s))) True"
proof -
  have n: "0 < length (audioAssets s)" using assms(2) by simp
  have nx: "handleNext s u cr = playAudio s 0 u cr" for u cr
    using assms n by (simp add: handleNext_def Let_def)
  have pv: "handlePrevious s u cr = playAudio s (int (length (audioAssets s)) - 1) u cr" for u cr
    using assms n by (simp add: handlePrevious_def Let_def)
  have r0: "(0::int) \<le> 0" "0 < int (length (audioAssets s))" using n by simp_all
  have r1: "0 \<le> int (length (audioAssets s)) - 1"
    "int (length (audioAssets s)) - 1 < int (length (audioAssets s))" using n by simp_all
  have a: "next_ok g s = s\<lparr>playbackInstance := Some g, currentTrackIndex := 0, isPlaying := True\<rparr>"
    unfolding next_ok_def nx by (rule playAudio_ok [OF r0])
  have b: "previous_ok g s = s\<lparr>playbackInstance := Some g,
            currentTrackIndex := int (length (audioAssets s)) - 1, isPlaying := True\<rparr>"
    unfolding previous_ok_def pv by (rule playAudio_ok [OF r1])
  have h: "audioAssets s ! 0 = hd (audioAssets s)"
    using assms(2) by (simp add: hd_conv_nth)
  have l: "audioAssets s ! nat (int (length (audioAssets s)) - 1) = last (audioAssets s)"
    using assms(2) by (simp add: last_conv_nth nat_diff_distrib')
  have c: "last (engine_calls (playAudio s 0 (Resolved ()) cr)) =
           CreateAsync (uri (hd (audioAssets s))) True"
    using r0 h by (cases "playbackInstance s"; cases cr) (simp_all add: playAudio_def engine_calls_def)
  have d: "last (engine_calls (playAudio s (int (length (audioAssets s)) - 1) (Resolved ()) cr)) =
           CreateAsync (uri (last (audioAssets s))) True"
    using r1 l by (cases "playbackInstance s"; cases cr) (simp_all add: playAudio_def engine_calls_def)
  show ?thesis
    using a b c d by (simp only: nx pv simp_thms)
qed

theorem next_previous_from_no_track_witness:
  "currentTrackIndex two_tracks = - 1 \<and> audioAssets two_tracks \<noteq> [] \<and>
   currentTrackIndex (next_ok 1 two_tracks) = 0 \<and>
   currentTrackIndex (previous_ok 1 two_tracks) = 1 \<and>
   engine_calls (handleNext two_tracks (Resolved ()) (Resolved 1)) = [CreateAsync ''file:///a.mp3'' True] \<and>
   engine_calls (handlePrevious two_tracks (Resolved ()) (Resolved 1)) = [CreateAsync ''file:///b.mp3'' True]"
  using next_previous_from_no_track [of two_tracks "Resolved ()" "Resolved 1" 1]
  by (simp add: two_tracks_def initial_def track_a_def track_b_def playAudio_def engine_calls_def)

end
